theory Spec2Isabelle
  imports Main "HOL-Library.Word"
begin

unbundle bit_operations_syntax

section \<open>Go strings and the library functions the parser calls\<close>

text \<open>
  A Go string is a sequence of bytes, modelled as \<open>string\<close> (a list of 8-bit \<open>char\<close>).
  Indexing \<open>s[i]\<close> reads a byte; \<open>for _, r := range s\<close> iterates over the runes that the
  UTF-8 decoder finds in the bytes. A rune is a code point, modelled as \<open>nat\<close>.
\<close>

type_synonym rune = nat

definition byte :: "char \<Rightarrow> nat" where
  "byte c = of_char c"

definition isASCII :: "string \<Rightarrow> bool" where
  "isASCII s = list_all (\<lambda>c. byte c < 128) s"

definition RuneError :: rune where
  "RuneError = 0xFFFD"

text \<open>
  \<open>utf8.DecodeRuneInString\<close>: the first rune of a string and the number of bytes it
  takes. An invalid or truncated sequence decodes to \<open>RuneError\<close> of width 1.
\<close>

definition DecodeRuneInString :: "string \<Rightarrow> rune \<times> nat" where
  "DecodeRuneInString s =
     (if length s < 1 then (RuneError, 0)
      else let s0 = byte (s ! 0) in
        if s0 < 0x80 then (s0, 1)
        else if s0 < 0xC2 \<or> 0xF4 < s0 then (RuneError, 1)
        else let sz = (if s0 < 0xE0 then 2 else if s0 < 0xF0 then 3 else 4 :: nat);
                 lo = (if s0 = 0xE0 then 0xA0 else if s0 = 0xF0 then 0x90 else 0x80);
                 hi = (if s0 = 0xED then 0x9F else if s0 = 0xF4 then 0x8F else 0xBF)
          in if length s < sz then (RuneError, 1)
             else let s1 = byte (s ! 1) in
               if s1 < lo \<or> hi < s1 then (RuneError, 1)
               else if sz \<le> 2 then ((s0 mod 32) * 64 + s1 mod 64, 2)
               else let s2 = byte (s ! 2) in
                 if s2 < 0x80 \<or> 0xBF < s2 then (RuneError, 1)
                 else if sz \<le> 3 then ((s0 mod 16) * 4096 + (s1 mod 64) * 64 + s2 mod 64, 3)
                 else let s3 = byte (s ! 3) in
                   if s3 < 0x80 \<or> 0xBF < s3 then (RuneError, 1)
                   else ((s0 mod 8) * 262144 + (s1 mod 64) * 4096 + (s2 mod 64) * 64
                           + s3 mod 64, 4))"

text \<open>The runes a \<open>range\<close> loop over a string visits, in order.\<close>

fun runes :: "string \<Rightarrow> rune list" where
  "runes [] = []"
| "runes (c # cs) =
     (case DecodeRuneInString (c # cs) of (r, n) \<Rightarrow> r # runes (drop (n - 1) cs))"

text \<open>\<open>string(r)\<close> for a rune: its UTF-8 encoding; an invalid code point encodes as U+FFFD.\<close>

definition EncodeRune :: "rune \<Rightarrow> string" where
  "EncodeRune r =
     (if r < 0x80 then [char_of r]
      else if r < 0x800 then [char_of (0xC0 + r div 64), char_of (0x80 + r mod 64)]
      else if (0xD800 \<le> r \<and> r \<le> 0xDFFF) \<or> 0x10FFFF < r then
        [char_of (0xEF :: nat), char_of (0xBF :: nat), char_of (0xBD :: nat)]
      else if r < 0x10000 then
        [char_of (0xE0 + r div 4096), char_of (0x80 + (r div 64) mod 64),
         char_of (0x80 + r mod 64)]
      else [char_of (0xF0 + r div 262144), char_of (0x80 + (r div 4096) mod 64),
            char_of (0x80 + (r div 64) mod 64), char_of (0x80 + r mod 64)])"

text \<open>\<open>strings.HasPrefix(line, ":")\<close> for a one-byte prefix.\<close>

definition HasPrefix :: "string \<Rightarrow> char \<Rightarrow> bool" where
  "HasPrefix s p = (case s of [] \<Rightarrow> False | c # _ \<Rightarrow> c = p)"

text \<open>
  \<open>strings.Split(s, ",")\<close> for a one-byte separator: every piece between separators,
  empty pieces included; the empty string splits into one empty piece.
\<close>

fun Split :: "string \<Rightarrow> char \<Rightarrow> string list" where
  "Split [] sep = [[]]"
| "Split (c # cs) sep =
     (if c = sep then [] # Split cs sep
      else (case Split cs sep of [] \<Rightarrow> [[c]] | p # ps \<Rightarrow> (c # p) # ps))"

text \<open>
  \<open>strconv.ParseUint(s, 10, 8)\<close>: a non-empty string of decimal digits whose value fits
  in 8 bits; no sign, no prefix, no underscore. Every other input is an error (\<open>None\<close>).
\<close>

fun ParseUint_digits :: "nat \<Rightarrow> string \<Rightarrow> nat option" where
  "ParseUint_digits n [] = Some n"
| "ParseUint_digits n (c # cs) =
     (if 48 \<le> byte c \<and> byte c \<le> 57 then
        (let n1 = n * 10 + (byte c - 48)
         in if n1 > 255 then None else ParseUint_digits n1 cs)
      else None)"

definition ParseUint8 :: "string \<Rightarrow> 8 word option" where
  "ParseUint8 s = (if s = [] then None else map_option of_nat (ParseUint_digits 0 s))"

text \<open>
  The regular expression \<open>spacesExpr\<close> is one or more U+0020 characters.
  \<open>spacesExpr.Split(s, 2)\<close> cuts at the first run of spaces only;
  \<open>spacesExpr.Split(s, -1)\<close> cuts at every run. Both return one empty piece for the
  empty string.
\<close>

definition isSpace :: "char \<Rightarrow> bool" where
  "isSpace c = (c = CHR '' '')"

definition spacesExpr_Split2 :: "string \<Rightarrow> string list" where
  "spacesExpr_Split2 s =
     (if s = [] then [[]]
      else if \<not> list_ex isSpace s then [s]
      else [takeWhile (\<lambda>c. \<not> isSpace c) s,
            dropWhile isSpace (dropWhile (\<lambda>c. \<not> isSpace c) s)])"

function spacesExpr_SplitAll :: "string \<Rightarrow> string list" where
  "spacesExpr_SplitAll s =
     (if \<not> list_ex isSpace s then [s]
      else takeWhile (\<lambda>c. \<not> isSpace c) s
             # spacesExpr_SplitAll (dropWhile isSpace (dropWhile (\<lambda>c. \<not> isSpace c) s)))"
  by pat_completeness auto

lemma length_dropWhile_spaces:
  "list_ex isSpace s \<Longrightarrow>
     length (dropWhile isSpace (dropWhile (\<lambda>c. \<not> isSpace c) s)) < length s"
proof (induction s)
  case Nil
  then show ?case by simp
next
  case (Cons c s)
  show ?case
  proof (cases "isSpace c")
    case True
    have "length (dropWhile isSpace s) \<le> length s"
      by (rule length_dropWhile_le)
    with True show ?thesis by simp
  next
    case False
    with Cons show ?thesis by simp
  qed
qed

termination spacesExpr_SplitAll
  by (relation "measure length") (simp_all add: length_dropWhile_spaces)

declare spacesExpr_SplitAll.simps [simp del]

subsection \<open>What lives outside the source files\<close>

text \<open>
  The Unicode tables, the channel-name test and the resolver are not part of the files
  under verification; they are parameters of the model. \<open>norm.NFC.String\<close>,
  \<open>norm.NFKC.String\<close> and \<open>strings.ToUpper\<close> leave a string of ASCII bytes as it is, up
  to the case of its letters; only their behaviour on other strings is a parameter.
\<close>

record env =
  NFC_nonascii :: "string \<Rightarrow> string"
  NFKC_nonascii :: "string \<Rightarrow> string"
  ToUpper_nonascii :: "string \<Rightarrow> string"
  IsChannel :: "string \<Rightarrow> bool"
  LookupHostname :: "string \<Rightarrow> string"

definition NFC_String :: "env \<Rightarrow> string \<Rightarrow> string" where
  "NFC_String E s = (if isASCII s then s else NFC_nonascii E s)"

definition NFKC_String :: "env \<Rightarrow> string \<Rightarrow> string" where
  "NFKC_String E s = (if isASCII s then s else NFKC_nonascii E s)"

definition upperASCII :: "char \<Rightarrow> char" where
  "upperASCII c = (if 97 \<le> byte c \<and> byte c \<le> 122 then char_of (byte c - 32) else c)"

definition ToUpper :: "env \<Rightarrow> string \<Rightarrow> string" where
  "ToUpper E s = (if isASCII s then map upperASCII s else ToUpper_nonascii E s)"

section \<open>Tokenizer\<close>

definition splitArg :: "string \<Rightarrow> string \<times> string" where
  "splitArg line =
     (let parts = spacesExpr_Split2 line
      in (if length parts > 0 then parts ! 0 else [],
          if length parts > 1 then parts ! 1 else []))"

lemma splitArg_shorter:
  "line \<noteq> [] \<Longrightarrow> splitArg line = (arg, rest) \<Longrightarrow> length rest < length line"
  by (auto simp: splitArg_def spacesExpr_Split2_def Let_def length_dropWhile_spaces
      split: if_splits)

function ParseLine_loop :: "env \<Rightarrow> string \<Rightarrow> string list \<Rightarrow> string list" where
  "ParseLine_loop E line args =
     (if length line > 0 then
        (if HasPrefix line CHR '':'' then args @ [NFC_String E (drop 1 line)]
         else (case splitArg line of
                 (arg, rest) \<Rightarrow> ParseLine_loop E rest (args @ [NFKC_String E arg])))
      else args)"
  by pat_completeness auto
termination
  by (relation "measure (\<lambda>(E, line, args). length line)")
     (auto intro: splitArg_shorter [OF _ sym])

declare ParseLine_loop.simps [simp del]

definition ParseLine :: "env \<Rightarrow> string \<Rightarrow> string \<times> string list" where
  "ParseLine E line0 =
     (let line1 = (if HasPrefix line0 CHR '':'' then snd (splitArg line0) else line0);
          (arg, line2) = splitArg line1
      in (ToUpper E arg, ParseLine_loop E line2 []))"

section \<open>Command values\<close>

text \<open>
  Every command struct embeds \<open>BaseCommand\<close>. Its \<open>client\<close> pointer is nil throughout
  parsing and is left out; \<open>code\<close> is the empty string until the dispatcher stamps it.
\<close>

type_synonym StringCode = string
type_synonym ModeOp = rune
type_synonym UserMode = rune
type_synonym ChannelMode = rune

text \<open>
  A constructor returns a command or one of the two error values. \<open>IndexOutOfRange\<close>
  is not an error value: it stands for the run-time panic of an index or slice expression
  that is out of range.
\<close>

datatype failure = NotEnoughArgsError | ErrParseCommand | IndexOutOfRange

datatype ModeChange = ModeChange UserMode ModeOp  \<comment> \<open>mode, op\<close>

type_synonym ModeChanges = "ModeChange list"

datatype ChannelModeChange =
  ChannelModeChange ChannelMode ModeOp string  \<comment> \<open>mode, op, arg\<close>

type_synonym ChannelModeChanges = "ChannelModeChange list"

text \<open>
  One constructor per command struct, with the struct's fields in their declared order.
  \<open>PassCommand\<close> and \<open>OperCommand\<close> also have \<open>hash\<close> and \<open>err\<close>, which stay nil until
  the later credential phase and are left out.
\<close>

datatype command =
    UnknownCommand "string list"  \<comment> \<open>args\<close>
  | PingCommand string string  \<comment> \<open>server, server2\<close>
  | PongCommand string string  \<comment> \<open>server1, server2\<close>
  | PassCommand string  \<comment> \<open>password\<close>
  | NickCommand string  \<comment> \<open>nickname\<close>
  | RFC1459UserCommand string string string string  \<comment> \<open>username, realname, hostname, servername\<close>
  | RFC2812UserCommand string string "8 word" string  \<comment> \<open>username, realname, mode, unused\<close>
  | QuitCommand string  \<comment> \<open>message\<close>
  | JoinCommand "string \<rightharpoonup> string" bool  \<comment> \<open>channels, zero\<close>
  | PartCommand "string list" string  \<comment> \<open>channels, message\<close>
  | PrivMsgCommand string string  \<comment> \<open>target, message\<close>
  | TopicCommand string bool string  \<comment> \<open>channel, setTopic, topic\<close>
  | ModeCommand string ModeChanges  \<comment> \<open>nickname, changes\<close>
  | ChannelModeCommand string ChannelModeChanges  \<comment> \<open>channel, changes\<close>
  | WhoisCommand string "string list"  \<comment> \<open>target, masks\<close>
  | WhoCommand string bool  \<comment> \<open>mask, operatorOnly\<close>
  | OperCommand string string  \<comment> \<open>password, name\<close>
  | CapCommand string "string \<rightharpoonup> bool"  \<comment> \<open>subCommand, capabilities\<close>
  | ProxyCommand string string string string string string  \<comment> \<open>net, sourceIP, destIP, sourcePort, destPort, hostname\<close>
  | AwayCommand string bool  \<comment> \<open>text, away\<close>
  | IsOnCommand "string list"  \<comment> \<open>nicks\<close>
  | MOTDCommand string  \<comment> \<open>target\<close>
  | NoticeCommand string string  \<comment> \<open>target, message\<close>
  | KickCommand "string \<rightharpoonup> string" string  \<comment> \<open>kicks, comment\<close>
  | ListCommand "string list" string  \<comment> \<open>channels, target\<close>
  | NamesCommand "string list" string  \<comment> \<open>channels, target\<close>
  | DebugCommand string  \<comment> \<open>subCommand\<close>
  | VersionCommand string  \<comment> \<open>target\<close>
  | InviteCommand string string  \<comment> \<open>nickname, channel\<close>
  | TimeCommand string  \<comment> \<open>target\<close>
  | KillCommand string string  \<comment> \<open>nickname, comment\<close>

record BaseCommand =
  code :: StringCode

record editableCommand = BaseCommand +
  body :: command

type_synonym parseCommandFunc = "string list \<Rightarrow> failure + editableCommand"

definition newCommand :: "command \<Rightarrow> editableCommand" where
  "newCommand c = \<lparr>code = [], body = c\<rparr>"

definition SetCode :: "StringCode \<Rightarrow> editableCommand \<Rightarrow> editableCommand" where
  "SetCode c cmd = cmd\<lparr>code := c\<rparr>"

subsection \<open>Mode constants\<close>

text \<open>
  Modelled from the spec: the types \<open>ModeOp\<close>, \<open>UserMode\<close> and \<open>ChannelMode\<close>, their
  constants and their \<open>String\<close> methods are declared in a file that is not among the
  sources. The parsers convert a byte to \<open>ModeOp\<close> and a rune to the two mode types, so
  all three are modelled as runes. The spec names \<open>+\<close> and \<open>-\<close> as the symbols of add
  and remove, and its examples write \<open>o\<close> for operator, \<open>v\<close> for voice, and \<open>i\<close> and \<open>w\<close>
  for the two user flags; the remaining mode letters are those of the RFC grammar that
  the comments in commands.go quote. The list operation has no symbol in the spec; it is
  given \<open>=\<close>, and nothing below depends on that choice beyond its being neither \<open>+\<close>
  nor \<open>-\<close>. A mode and an operation render as their own character.
\<close>

definition Add :: ModeOp where "Add = byte CHR ''+''"
definition List :: ModeOp where "List = byte CHR ''=''"
definition Remove :: ModeOp where "Remove = byte CHR ''-''"

definition Invisible :: UserMode where "Invisible = byte CHR ''i''"
definition WallOps :: UserMode where "WallOps = byte CHR ''w''"

definition BanMask :: ChannelMode where "BanMask = byte CHR ''b''"
definition ChannelCreator :: ChannelMode where "ChannelCreator = byte CHR ''O''"
definition ChannelOperator :: ChannelMode where "ChannelOperator = byte CHR ''o''"
definition ExceptMask :: ChannelMode where "ExceptMask = byte CHR ''e''"
definition InviteMask :: ChannelMode where "InviteMask = byte CHR ''I''"
definition Key :: ChannelMode where "Key = byte CHR ''k''"
definition UserLimit :: ChannelMode where "UserLimit = byte CHR ''l''"
definition Voice :: ChannelMode where "Voice = byte CHR ''v''"

definition ModeOp_String :: "ModeOp \<Rightarrow> string" where
  "ModeOp_String x = EncodeRune x"

definition UserMode_String :: "UserMode \<Rightarrow> string" where
  "UserMode_String m = EncodeRune m"

section \<open>Command constructors\<close>

definition NewUnknownCommand :: "string list \<Rightarrow> editableCommand" where
  "NewUnknownCommand args = newCommand (UnknownCommand args)"

definition NewPingCommand :: parseCommandFunc where
  "NewPingCommand args =
     (if length args < 1 then Inl NotEnoughArgsError
      else Inr (newCommand (PingCommand (args ! 0) (if length args > 1 then args ! 1 else []))))"

definition NewPongCommand :: parseCommandFunc where
  "NewPongCommand args =
     (if length args < 1 then Inl NotEnoughArgsError
      else Inr (newCommand (PongCommand (args ! 0) (if length args > 1 then args ! 1 else []))))"

definition NewPassCommand :: parseCommandFunc where
  "NewPassCommand args =
     (if length args < 1 then Inl NotEnoughArgsError
      else Inr (newCommand (PassCommand (args ! 0))))"

definition NewNickCommand :: parseCommandFunc where
  "NewNickCommand args =
     (if length args \<noteq> 1 then Inl NotEnoughArgsError
      else Inr (newCommand (NickCommand (args ! 0))))"

subsection \<open>USER\<close>

text \<open>\<open>Flags\<close> is a method of \<open>RFC2812UserCommand\<close> only.\<close>

fun Flags :: "command \<Rightarrow> UserMode list" where
  "Flags (RFC2812UserCommand username realname m unused) =
     (let flags = [];
          flags = (if (m AND 4) = 4 then flags @ [WallOps] else flags);
          flags = (if (m AND 8) = 8 then flags @ [Invisible] else flags)
      in flags)"

definition NewUserCommand :: parseCommandFunc where
  "NewUserCommand args =
     (if length args \<noteq> 4 then Inl NotEnoughArgsError
      else (case ParseUint8 (args ! 1) of
              Some m \<Rightarrow> Inr (newCommand (RFC2812UserCommand (args ! 0) (args ! 3) m (args ! 2)))
            | None \<Rightarrow>
                Inr (newCommand (RFC1459UserCommand (args ! 0) (args ! 3) (args ! 1) (args ! 2)))))"

definition NewQuitCommand :: parseCommandFunc where
  "NewQuitCommand args =
     Inr (newCommand (QuitCommand (if length args > 0 then args ! 0 else [])))"

subsection \<open>JOIN\<close>

text \<open>
  \<open>for i, key := range strings.Split(args[1], ",") { keys[i] = key }\<close>: a write past
  the end of \<open>keys\<close> panics.
\<close>

fun NewJoinCommand_keys :: "string list \<Rightarrow> nat \<Rightarrow> string list \<Rightarrow> failure + string list" where
  "NewJoinCommand_keys keys i [] = Inr keys"
| "NewJoinCommand_keys keys i (key # rest) =
     (if i < length keys then NewJoinCommand_keys (keys[i := key]) (Suc i) rest
      else Inl IndexOutOfRange)"

text \<open>\<open>for i, channel := range channels { msg.channels[channel] = keys[i] }\<close>\<close>

fun NewJoinCommand_channels ::
  "string list \<Rightarrow> nat \<Rightarrow> string list \<Rightarrow> (string \<rightharpoonup> string) \<Rightarrow> failure + (string \<rightharpoonup> string)" where
  "NewJoinCommand_channels keys i [] m = Inr m"
| "NewJoinCommand_channels keys i (channel # rest) m =
     (if i < length keys then NewJoinCommand_channels keys (Suc i) rest (m(channel \<mapsto> keys ! i))
      else Inl IndexOutOfRange)"

definition NewJoinCommand :: parseCommandFunc where
  "NewJoinCommand args =
     (if length args = 0 then Inl NotEnoughArgsError
      else if args ! 0 = ''0'' then Inr (newCommand (JoinCommand Map.empty True))
      else
        (let channels = Split (args ! 0) CHR '','';
             keys = replicate (length channels) []
         in case (if length args > 1
                  then NewJoinCommand_keys keys 0 (Split (args ! 1) CHR '','')
                  else Inr keys) of
              Inl e \<Rightarrow> Inl e
            | Inr keys \<Rightarrow>
                (case NewJoinCommand_channels keys 0 channels Map.empty of
                   Inl e \<Rightarrow> Inl e
                 | Inr m \<Rightarrow> Inr (newCommand (JoinCommand m False)))))"

definition NewPartCommand :: parseCommandFunc where
  "NewPartCommand args =
     (if length args < 1 then Inl NotEnoughArgsError
      else Inr (newCommand (PartCommand (Split (args ! 0) CHR '','')
                              (if length args > 1 then args ! 1 else []))))"

definition NewPrivMsgCommand :: parseCommandFunc where
  "NewPrivMsgCommand args =
     (if length args < 2 then Inl NotEnoughArgsError
      else Inr (newCommand (PrivMsgCommand (args ! 0) (args ! 1))))"

definition NewTopicCommand :: parseCommandFunc where
  "NewTopicCommand args =
     (if length args < 1 then Inl NotEnoughArgsError
      else if length args > 1 then Inr (newCommand (TopicCommand (args ! 0) True (args ! 1)))
      else Inr (newCommand (TopicCommand (args ! 0) False [])))"

subsection \<open>MODE\<close>

text \<open>\<open>ModeChanges.String\<close>: the loop, with the current operation and the string so far.\<close>

fun ModeChanges_String_loop :: "ModeChanges \<Rightarrow> ModeOp \<Rightarrow> string \<Rightarrow> string" where
  "ModeChanges_String_loop [] cur str = str"
| "ModeChanges_String_loop (ModeChange m x # rest) cur str =
     (if x = cur then ModeChanges_String_loop rest cur (str @ UserMode_String m)
      else ModeChanges_String_loop rest x (str @ '' '' @ ModeOp_String x))"

fun ModeChanges_String :: "ModeChanges \<Rightarrow> string" where
  "ModeChanges_String [] = []"
| "ModeChanges_String (ModeChange m x # rest) =
     ModeChanges_String_loop (ModeChange m x # rest) x (ModeOp_String x)"

text \<open>
  The source heads the user-mode constructor with the grammar
  \<open>MODE <nickname> *( ( "+" / "-" ) *( "i" / "w" / "o" / "O" / "r" ) )\<close>
  and the channel-mode constructor with
  \<open>MODE <channel> *( ( "-" / "+" ) *<modes> *<modeparams> )\<close>.
\<close>

text \<open>The inner loop of the user-mode parser: one change per rune after the operator.\<close>

fun NewUserModeCommand_modes :: "rune list \<Rightarrow> ModeOp \<Rightarrow> ModeChanges \<Rightarrow> ModeChanges" where
  "NewUserModeCommand_modes [] x changes = changes"
| "NewUserModeCommand_modes (m # ms) x changes =
     NewUserModeCommand_modes ms x (changes @ [ModeChange m x])"

fun NewUserModeCommand_loop :: "string list \<Rightarrow> ModeChanges \<Rightarrow> failure + ModeChanges" where
  "NewUserModeCommand_loop [] changes = Inr changes"
| "NewUserModeCommand_loop (modeChange # rest) changes =
     (if length modeChange = 0 then NewUserModeCommand_loop rest changes
      else
        (let x = byte (modeChange ! 0)
         in if x \<noteq> Add \<and> x \<noteq> Remove then Inl ErrParseCommand
            else NewUserModeCommand_loop rest
                   (NewUserModeCommand_modes (runes (drop 1 modeChange)) x changes)))"

definition NewUserModeCommand :: parseCommandFunc where
  "NewUserModeCommand args =
     (if length args < 1 then Inl IndexOutOfRange
      else (case NewUserModeCommand_loop (drop 1 args) [] of
              Inl e \<Rightarrow> Inl e
            | Inr changes \<Rightarrow> Inr (newCommand (ModeCommand (args ! 0) changes))))"

definition takesArg :: "ChannelMode \<Rightarrow> bool" where
  "takesArg m =
     (m \<in> set [Key, BanMask, ExceptMask, InviteMask, UserLimit,
                ChannelOperator, ChannelCreator, Voice])"

text \<open>
  The inner loop of the channel-mode parser over the runes of one argument: the changes
  so far and \<open>skipArgs\<close> go in and come out.
\<close>

fun NewChannelModeCommand_modes ::
  "rune list \<Rightarrow> ModeOp \<Rightarrow> string list \<Rightarrow> nat \<Rightarrow> ChannelModeChanges
     \<Rightarrow> ChannelModeChanges \<times> nat" where
  "NewChannelModeCommand_modes [] x args skipArgs changes = (changes, skipArgs)"
| "NewChannelModeCommand_modes (m # ms) x args skipArgs changes =
     (if takesArg m \<and> length args > skipArgs then
        NewChannelModeCommand_modes ms x args (skipArgs + 1)
          (changes @ [ChannelModeChange m x (args ! skipArgs)])
      else NewChannelModeCommand_modes ms x args skipArgs
             (changes @ [ChannelModeChange m x []]))"

lemma NewChannelModeCommand_modes_skipArgs:
  "NewChannelModeCommand_modes ms x args k changes = (changes', k') \<Longrightarrow>
     k \<le> k' \<and> (k \<le> length args \<longrightarrow> k' \<le> length args)"
  by (induction ms x args k changes rule: NewChannelModeCommand_modes.induct)
     (auto split: if_splits)

function NewChannelModeCommand_loop ::
  "string list \<Rightarrow> ChannelModeChanges \<Rightarrow> failure + ChannelModeChanges" where
  "NewChannelModeCommand_loop args changes =
     (if length args > 0 then
        (if length (args ! 0) = 0 then NewChannelModeCommand_loop (drop 1 args) changes
         else
           (let modeArg = args ! 0;
                x = byte (modeArg ! 0);
                (modeArg, x) = (if x = Add \<or> x = Remove then (drop 1 modeArg, x)
                                else (modeArg, List));
                (changes, skipArgs) = NewChannelModeCommand_modes (runes modeArg) x args 1 changes
            in if skipArgs > length args then Inl IndexOutOfRange
               else NewChannelModeCommand_loop (drop skipArgs args) changes))
      else Inr changes)"
  by pat_completeness auto
termination
proof (relation "measure (\<lambda>(args, changes). length args)", goal_cases)
  case 1
  show ?case by simp
next
  case (2 args changes)
  then show ?case by (cases args) simp_all
next
  case (3 args changes modeArg x p modeArg' x' q changes' skipArgs)
  have "1 \<le> skipArgs"
    using NewChannelModeCommand_modes_skipArgs
            [of "runes modeArg'" x' args 1 changes changes' skipArgs] 3
    by simp
  with 3(1) show ?case by simp
qed

declare NewChannelModeCommand_loop.simps [simp del]

definition NewChannelModeCommand :: parseCommandFunc where
  "NewChannelModeCommand args =
     (if length args < 1 then Inl IndexOutOfRange
      else (case NewChannelModeCommand_loop (drop 1 args) [] of
              Inl e \<Rightarrow> Inl e
            | Inr changes \<Rightarrow> Inr (newCommand (ChannelModeCommand (args ! 0) changes))))"

definition NewModeCommand :: "env \<Rightarrow> parseCommandFunc" where
  "NewModeCommand E args =
     (if length args = 0 then Inl NotEnoughArgsError
      else if IsChannel E (args ! 0) then NewChannelModeCommand args
      else NewUserModeCommand args)"

subsection \<open>The remaining constructors\<close>

definition NewWhoisCommand :: parseCommandFunc where
  "NewWhoisCommand args =
     (if length args < 1 then Inl NotEnoughArgsError
      else if length args > 1 then
        Inr (newCommand (WhoisCommand (args ! 0) (Split (args ! 1) CHR '','')))
      else Inr (newCommand (WhoisCommand [] (Split (args ! 0) CHR '',''))))"

definition NewWhoCommand :: parseCommandFunc where
  "NewWhoCommand args =
     Inr (newCommand (WhoCommand (if length args > 0 then args ! 0 else [])
                        (length args > 1 \<and> args ! 1 = ''o'')))"

definition NewOperCommand :: parseCommandFunc where
  "NewOperCommand args =
     (if length args < 2 then Inl NotEnoughArgsError
      else Inr (newCommand (OperCommand (args ! 1) (args ! 0))))"

text \<open>\<open>for _, str := range strs { cmd.capabilities[Capability(str)] = true }\<close>\<close>

fun NewCapCommand_caps :: "string list \<Rightarrow> (string \<rightharpoonup> bool) \<Rightarrow> (string \<rightharpoonup> bool)" where
  "NewCapCommand_caps [] m = m"
| "NewCapCommand_caps (str # strs) m = NewCapCommand_caps strs (m(str \<mapsto> True))"

definition NewCapCommand :: "env \<Rightarrow> parseCommandFunc" where
  "NewCapCommand E args =
     (if length args < 1 then Inl NotEnoughArgsError
      else Inr (newCommand (CapCommand (ToUpper E (args ! 0))
                  (if length args > 1
                   then NewCapCommand_caps (spacesExpr_SplitAll (args ! 1)) Map.empty
                   else Map.empty))))"

definition NewProxyCommand :: "env \<Rightarrow> parseCommandFunc" where
  "NewProxyCommand E args =
     (if length args < 5 then Inl NotEnoughArgsError
      else Inr (newCommand (ProxyCommand (args ! 0) (args ! 1) (args ! 2) (args ! 3) (args ! 4)
                              (LookupHostname E (args ! 1)))))"

definition NewAwayCommand :: parseCommandFunc where
  "NewAwayCommand args =
     (if length args > 0 then Inr (newCommand (AwayCommand (args ! 0) True))
      else Inr (newCommand (AwayCommand [] False)))"

definition NewIsOnCommand :: parseCommandFunc where
  "NewIsOnCommand args =
     (if length args = 0 then Inl NotEnoughArgsError
      else Inr (newCommand (IsOnCommand args)))"

definition NewMOTDCommand :: parseCommandFunc where
  "NewMOTDCommand args =
     Inr (newCommand (MOTDCommand (if length args > 0 then args ! 0 else [])))"

definition NewNoticeCommand :: parseCommandFunc where
  "NewNoticeCommand args =
     (if length args < 2 then Inl NotEnoughArgsError
      else Inr (newCommand (NoticeCommand (args ! 0) (args ! 1))))"

subsection \<open>KICK\<close>

text \<open>
  \<open>for index, channel := range channels\<close>: one user for every channel, or the user at
  the channel's own index.
\<close>

fun NewKickCommand_loop ::
  "string list \<Rightarrow> nat \<Rightarrow> string list \<Rightarrow> (string \<rightharpoonup> string) \<Rightarrow> failure + (string \<rightharpoonup> string)" where
  "NewKickCommand_loop users index [] kicks = Inr kicks"
| "NewKickCommand_loop users index (channel # rest) kicks =
     (if length users = 1 then
        NewKickCommand_loop users (Suc index) rest (kicks(channel \<mapsto> users ! 0))
      else if index < length users then
        NewKickCommand_loop users (Suc index) rest (kicks(channel \<mapsto> users ! index))
      else Inl IndexOutOfRange)"

definition NewKickCommand :: parseCommandFunc where
  "NewKickCommand args =
     (if length args < 2 then Inl NotEnoughArgsError
      else
        (let channels = Split (args ! 0) CHR '','';
             users = Split (args ! 1) CHR '',''
         in if length channels \<noteq> length users \<and> length users \<noteq> 1
            then Inl NotEnoughArgsError
            else (case NewKickCommand_loop users 0 channels Map.empty of
                    Inl e \<Rightarrow> Inl e
                  | Inr kicks \<Rightarrow>
                      Inr (newCommand (KickCommand kicks
                             (if length args > 2 then args ! 2 else []))))))"

definition NewListCommand :: parseCommandFunc where
  "NewListCommand args =
     Inr (newCommand (ListCommand (if length args > 0 then Split (args ! 0) CHR '','' else [])
                        (if length args > 1 then args ! 1 else [])))"

definition NewNamesCommand :: parseCommandFunc where
  "NewNamesCommand args =
     Inr (newCommand (NamesCommand (if length args > 0 then Split (args ! 0) CHR '','' else [])
                        (if length args > 1 then args ! 1 else [])))"

definition NewDebugCommand :: "env \<Rightarrow> parseCommandFunc" where
  "NewDebugCommand E args =
     (if length args = 0 then Inl NotEnoughArgsError
      else Inr (newCommand (DebugCommand (ToUpper E (args ! 0)))))"

definition NewVersionCommand :: parseCommandFunc where
  "NewVersionCommand args =
     Inr (newCommand (VersionCommand (if length args > 0 then args ! 0 else [])))"

definition NewInviteCommand :: parseCommandFunc where
  "NewInviteCommand args =
     (if length args < 2 then Inl NotEnoughArgsError
      else Inr (newCommand (InviteCommand (args ! 0) (args ! 1))))"

definition NewTimeCommand :: parseCommandFunc where
  "NewTimeCommand args =
     Inr (newCommand (TimeCommand (if length args > 0 then args ! 0 else [])))"

definition NewKillCommand :: parseCommandFunc where
  "NewKillCommand args =
     (if length args < 2 then Inl NotEnoughArgsError
      else Inr (newCommand (KillCommand (args ! 0) (args ! 1))))"

section \<open>Registry and dispatcher\<close>

text \<open>
  Modelled from the spec: the \<open>StringCode\<close> constants that key the registry are declared
  in a file that is not among the sources; a command code is the protocol keyword in
  upper case, so each constant is taken to be the keyword its identifier spells.
\<close>

definition parseCommandFuncs :: "env \<Rightarrow> StringCode \<rightharpoonup> parseCommandFunc" where
  "parseCommandFuncs E = map_of
     [(''AWAY'', NewAwayCommand),
      (''CAP'', NewCapCommand E),
      (''DEBUG'', NewDebugCommand E),
      (''INVITE'', NewInviteCommand),
      (''ISON'', NewIsOnCommand),
      (''JOIN'', NewJoinCommand),
      (''KICK'', NewKickCommand),
      (''KILL'', NewKillCommand),
      (''LIST'', NewListCommand),
      (''MODE'', NewModeCommand E),
      (''MOTD'', NewMOTDCommand),
      (''NAMES'', NewNamesCommand),
      (''NICK'', NewNickCommand),
      (''NOTICE'', NewNoticeCommand),
      (''OPER'', NewOperCommand),
      (''PART'', NewPartCommand),
      (''PASS'', NewPassCommand),
      (''PING'', NewPingCommand),
      (''PONG'', NewPongCommand),
      (''PRIVMSG'', NewPrivMsgCommand),
      (''PROXY'', NewProxyCommand E),
      (''QUIT'', NewQuitCommand),
      (''TIME'', NewTimeCommand),
      (''TOPIC'', NewTopicCommand),
      (''USER'', NewUserCommand),
      (''VERSION'', NewVersionCommand),
      (''WHO'', NewWhoCommand),
      (''WHOIS'', NewWhoisCommand)]"

definition ParseCommand :: "env \<Rightarrow> string \<Rightarrow> failure + editableCommand" where
  "ParseCommand E line =
     (case ParseLine E line of
        (c, args) \<Rightarrow>
          (case parseCommandFuncs E c of
             None \<Rightarrow> Inr (SetCode c (NewUnknownCommand args))
           | Some constructor \<Rightarrow>
               (case constructor args of
                  Inl err \<Rightarrow> Inl err
                | Inr cmd \<Rightarrow> Inr (SetCode c cmd))))"

subsection \<open>An environment for concrete lines\<close>

text \<open>
  The concrete lines evaluated below are ASCII, so the Unicode parameters are never
  consulted; \<open>IsChannel\<close> is instantiated with a test for a leading \<open>#\<close>.
\<close>

definition example_env :: env where
  "example_env =
     \<lparr>NFC_nonascii = id, NFKC_nonascii = id, ToUpper_nonascii = id,
      IsChannel = (\<lambda>s. HasPrefix s CHR ''#''), LookupHostname = id\<rparr>"

section \<open>Verified properties\<close>

subsection \<open>Tokenizing and dispatching a concrete line\<close>

lemmas tokenizer_defs =
  ParseLine_def ParseLine_loop.simps splitArg_def spacesExpr_Split2_def HasPrefix_def
  isSpace_def NFKC_String_def NFC_String_def ToUpper_def upperASCII_def isASCII_def byte_def

lemma ParseCommand_registered:
  assumes "ParseLine E line = (c, args)" and "parseCommandFuncs E c = Some f"
  shows "ParseCommand E line =
           (case f args of Inl e \<Rightarrow> Inl e | Inr cmd \<Rightarrow> Inr (SetCode c cmd))"
  using assms by (simp add: ParseCommand_def)

subsection \<open>KICK\<close>

lemma NewKickCommand_loop_single:
  "length users = 1 \<Longrightarrow>
     NewKickCommand_loop users index channels kicks =
       Inr (\<lambda>c. if c \<in> set channels then Some (users ! 0) else kicks c)"
  by (induction channels arbitrary: index kicks) (auto simp: fun_eq_iff)

lemma NewKickCommand_loop_positional:
  "length users \<noteq> 1 \<Longrightarrow> index + length channels \<le> length users \<Longrightarrow>
     NewKickCommand_loop users index channels kicks =
       Inr (kicks ++ map_of (rev (zip channels (drop index users))))"
proof (induction channels arbitrary: index kicks)
  case Nil
  then show ?case by simp
next
  case (Cons channel rest)
  from Cons.prems have lt: "index < length users" by simp
  then have d: "drop index users = users ! index # drop (Suc index) users"
    by (simp add: Cons_nth_drop_Suc)
  have "NewKickCommand_loop users index (channel # rest) kicks =
          NewKickCommand_loop users (Suc index) rest (kicks(channel \<mapsto> users ! index))"
    using Cons.prems lt by simp
  also have "\<dots> = Inr (kicks(channel \<mapsto> users ! index)
                        ++ map_of (rev (zip rest (drop (Suc index) users))))"
    using Cons.prems by (intro Cons.IH) simp_all
  also have "kicks(channel \<mapsto> users ! index) ++ map_of (rev (zip rest (drop (Suc index) users)))
               = kicks ++ map_of (rev (zip (channel # rest) (drop index users)))"
    by (simp add: d map_add_upd_left fun_eq_iff map_add_def split: option.splits)
  finally show ?case .
qed

text \<open>
  C4. With at least two arguments, KICK construction succeeds exactly when the
  comma-split user list has one element (that user is paired with every channel) or as
  many elements as the comma-split channel list (users and channels are paired by
  position, a later occurrence of a channel name overriding an earlier one); in every
  other case it fails with the arity error.
\<close>

theorem NewKickCommand_pairing:
  assumes "2 \<le> length args"
  shows "(length (Split (args ! 1) CHR '','') = 1 \<longrightarrow>
            NewKickCommand args =
              Inr (newCommand (KickCommand
                     (\<lambda>c. if c \<in> set (Split (args ! 0) CHR '','')
                          then Some (Split (args ! 1) CHR '','' ! 0) else None)
                     (if length args > 2 then args ! 2 else []))))
       \<and> (length (Split (args ! 1) CHR '','') \<noteq> 1 \<and>
          length (Split (args ! 1) CHR '','') = length (Split (args ! 0) CHR '','') \<longrightarrow>
            NewKickCommand args =
              Inr (newCommand (KickCommand
                     (map_of (rev (zip (Split (args ! 0) CHR '','') (Split (args ! 1) CHR '',''))))
                     (if length args > 2 then args ! 2 else []))))
       \<and> (length (Split (args ! 1) CHR '','') \<noteq> 1 \<and>
          length (Split (args ! 1) CHR '','') \<noteq> length (Split (args ! 0) CHR '','') \<longrightarrow>
            NewKickCommand args = Inl NotEnoughArgsError)"
proof (intro conjI impI)
  assume "length (Split (args ! 1) CHR '','') = 1"
  then show "NewKickCommand args =
              Inr (newCommand (KickCommand
                     (\<lambda>c. if c \<in> set (Split (args ! 0) CHR '','')
                          then Some (Split (args ! 1) CHR '','' ! 0) else None)
                     (if length args > 2 then args ! 2 else [])))"
    using assms by (simp add: NewKickCommand_def Let_def NewKickCommand_loop_single del: One_nat_def)
next
  assume "length (Split (args ! 1) CHR '','') \<noteq> 1 \<and>
          length (Split (args ! 1) CHR '','') = length (Split (args ! 0) CHR '','')"
  then show "NewKickCommand args =
              Inr (newCommand (KickCommand
                     (map_of (rev (zip (Split (args ! 0) CHR '','') (Split (args ! 1) CHR '',''))))
                     (if length args > 2 then args ! 2 else [])))"
    using assms by (simp add: NewKickCommand_def Let_def NewKickCommand_loop_positional del: One_nat_def)
next
  assume "length (Split (args ! 1) CHR '','') \<noteq> 1 \<and>
          length (Split (args ! 1) CHR '','') \<noteq> length (Split (args ! 0) CHR '','')"
  then show "NewKickCommand args = Inl NotEnoughArgsError"
    using assms by (auto simp: NewKickCommand_def Let_def)
qed

theorem NewKickCommand_pairing_witness:
  "NewKickCommand [''#a,#b'', ''alice''] =
     Inr (newCommand (KickCommand [''#a'' \<mapsto> ''alice'', ''#b'' \<mapsto> ''alice''] []))
   \<and> NewKickCommand [''#a,#b'', ''alice,bob''] =
     Inr (newCommand (KickCommand [''#a'' \<mapsto> ''alice'', ''#b'' \<mapsto> ''bob''] []))
   \<and> NewKickCommand [''#a,#b,#c'', ''alice,bob''] = Inl NotEnoughArgsError
   \<and> ParseCommand example_env ''KICK #a,#b alice'' =
     Inr \<lparr>code = ''KICK'',
          body = KickCommand [''#a'' \<mapsto> ''alice'', ''#b'' \<mapsto> ''alice''] []\<rparr>
   \<and> ParseCommand example_env ''KICK #a,#b alice,bob'' =
     Inr \<lparr>code = ''KICK'',
          body = KickCommand [''#a'' \<mapsto> ''alice'', ''#b'' \<mapsto> ''bob''] []\<rparr>
   \<and> ParseCommand example_env ''KICK #a,#b,#c alice,bob'' = Inl NotEnoughArgsError"
proof -
  have one: "(\<lambda>c. if c = ''#a'' \<or> c = ''#b'' then Some ''alice'' else None)
               = [''#a'' \<mapsto> ''alice'', ''#b'' \<mapsto> ''alice'']"
    by (auto simp: fun_eq_iff)
  have two: "map_of (rev (zip [''#a'', ''#b''] [''alice'', ''bob'']))
               = [''#a'' \<mapsto> ''alice'', ''#b'' \<mapsto> ''bob'']"
    by (auto simp: fun_eq_iff)
  have k: "NewKickCommand [''#a,#b'', ''alice''] =
             Inr (newCommand (KickCommand [''#a'' \<mapsto> ''alice'', ''#b'' \<mapsto> ''alice''] []))
           \<and> NewKickCommand [''#a,#b'', ''alice,bob''] =
             Inr (newCommand (KickCommand [''#a'' \<mapsto> ''alice'', ''#b'' \<mapsto> ''bob''] []))
           \<and> NewKickCommand [''#a,#b,#c'', ''alice,bob''] = Inl NotEnoughArgsError"
    using NewKickCommand_pairing [of "[''#a,#b'', ''alice'']"]
          NewKickCommand_pairing [of "[''#a,#b'', ''alice,bob'']"]
          NewKickCommand_pairing [of "[''#a,#b,#c'', ''alice,bob'']"]
    by (simp add: one two cong: if_cong)
  have r: "parseCommandFuncs example_env ''KICK'' = Some NewKickCommand"
    by (simp add: parseCommandFuncs_def)
  have t: "ParseLine example_env ''KICK #a,#b alice'' = (''KICK'', [''#a,#b'', ''alice''])"
    "ParseLine example_env ''KICK #a,#b alice,bob'' = (''KICK'', [''#a,#b'', ''alice,bob''])"
    "ParseLine example_env ''KICK #a,#b,#c alice,bob'' =
       (''KICK'', [''#a,#b,#c'', ''alice,bob''])"
    by (simp_all add: tokenizer_defs)
  from k show ?thesis
    by (simp add: t [THEN ParseCommand_registered, OF r] SetCode_def newCommand_def)
qed

subsection \<open>JOIN\<close>

lemma NewJoinCommand_keys_fit:
  "i + length ks \<le> length keys \<Longrightarrow>
     NewJoinCommand_keys keys i ks = Inr (take i keys @ ks @ drop (i + length ks) keys)"
proof (induction ks arbitrary: i keys)
  case Nil
  then show ?case by simp
next
  case (Cons k ks)
  from Cons.prems have lt: "i < length keys" by simp
  have "NewJoinCommand_keys keys i (k # ks) = NewJoinCommand_keys (keys[i := k]) (Suc i) ks"
    using lt by simp
  also have "\<dots> = Inr (take (Suc i) (keys[i := k]) @ ks
                        @ drop (Suc i + length ks) (keys[i := k]))"
    using Cons.prems by (intro Cons.IH) simp
  also have "take (Suc i) (keys[i := k]) = take i keys @ [k]"
    using lt by (simp add: take_Suc_conv_app_nth)
  also have "drop (Suc i + length ks) (keys[i := k]) = drop (i + length (k # ks)) keys"
    by simp
  finally show ?case by simp
qed

lemma NewJoinCommand_keys_overrun:
  "i \<le> length keys \<Longrightarrow> length keys < i + length ks \<Longrightarrow>
     NewJoinCommand_keys keys i ks = Inl IndexOutOfRange"
  by (induction ks arbitrary: i keys) auto

lemma NewJoinCommand_channels_fit:
  "i + length chans \<le> length keys \<Longrightarrow>
     NewJoinCommand_channels keys i chans m =
       Inr (m ++ map_of (rev (zip chans (drop i keys))))"
proof (induction chans arbitrary: i m)
  case Nil
  then show ?case by simp
next
  case (Cons c chans)
  from Cons.prems have lt: "i < length keys" by simp
  then have d: "drop i keys = keys ! i # drop (Suc i) keys"
    by (simp add: Cons_nth_drop_Suc)
  have "NewJoinCommand_channels keys i (c # chans) m =
          NewJoinCommand_channels keys (Suc i) chans (m(c \<mapsto> keys ! i))"
    using lt by simp
  also have "\<dots> = Inr (m(c \<mapsto> keys ! i) ++ map_of (rev (zip chans (drop (Suc i) keys))))"
    using Cons.prems by (intro Cons.IH) simp
  also have "m(c \<mapsto> keys ! i) ++ map_of (rev (zip chans (drop (Suc i) keys)))
               = m ++ map_of (rev (zip (c # chans) (drop i keys)))"
    by (simp add: d fun_eq_iff map_add_def split: option.splits)
  finally show ?case .
qed

lemma NewJoinCommand_fit:
  assumes "args \<noteq> []" and "args ! 0 \<noteq> ''0''"
    and "length keys \<le> length (Split (args ! 0) CHR '','')"
    and "keys = (if length args > 1 then Split (args ! 1) CHR '','' else [])"
  shows "NewJoinCommand args =
           Inr (newCommand (JoinCommand
                  (map_of (rev (zip (Split (args ! 0) CHR '','')
                     (keys @ replicate (length (Split (args ! 0) CHR '','') - length keys) []))))
                  False))"
proof -
  let ?chans = "Split (args ! 0) CHR '',''"
  let ?n = "length ?chans"
  have k: "(if length args > 1 then NewJoinCommand_keys (replicate ?n []) 0 (Split (args ! 1) CHR '','')
            else Inr (replicate ?n [])) = Inr (keys @ replicate (?n - length keys) [])"
  proof (cases "length args > 1")
    case True
    with assms(3,4) have "length (Split (args ! 1) CHR '','') \<le> ?n" and "keys = Split (args ! 1) CHR '',''"
      by simp_all
    with True show ?thesis
      using NewJoinCommand_keys_fit [of 0 "Split (args ! 1) CHR '',''" "replicate ?n []"]
      by (simp del: One_nat_def)
  next
    case False
    with assms(4) show ?thesis by simp
  qed
  have c: "NewJoinCommand_channels (keys @ replicate (?n - length keys) []) 0 ?chans Map.empty
             = Inr (map_of (rev (zip ?chans (keys @ replicate (?n - length keys) []))))"
    using assms(3) by (simp add: NewJoinCommand_channels_fit)
  show ?thesis
    using assms(1,2) by (simp add: NewJoinCommand_def Let_def k c del: One_nat_def)
qed

text \<open>
  C5 (amended). For a non-empty argument list, JOIN construction sets the leave-all flag
  and leaves the channel map empty whenever the first argument is \<open>0\<close>, whether or not
  further arguments follow. Otherwise, provided the comma-split key list is no longer than
  the comma-split channel list, channels and keys are paired by position and the channels
  beyond the key list receive the empty key.
\<close>

theorem NewJoinCommand_pairing:
  assumes "args \<noteq> []"
  shows "(args ! 0 = ''0'' \<longrightarrow> NewJoinCommand args = Inr (newCommand (JoinCommand Map.empty True)))
       \<and> (let channels = Split (args ! 0) CHR '','';
              keys = (if length args > 1 then Split (args ! 1) CHR '','' else [])
          in args ! 0 \<noteq> ''0'' \<and> length keys \<le> length channels \<longrightarrow>
               NewJoinCommand args =
                 Inr (newCommand (JoinCommand
                        (map_of (rev (zip channels
                           (keys @ replicate (length channels - length keys) []))))
                        False)))"
proof (intro conjI impI)
  assume "args ! 0 = ''0''"
  with assms show "NewJoinCommand args = Inr (newCommand (JoinCommand Map.empty True))"
    by (simp add: NewJoinCommand_def)
next
  show "let channels = Split (args ! 0) CHR '','';
            keys = (if length args > 1 then Split (args ! 1) CHR '','' else [])
        in args ! 0 \<noteq> ''0'' \<and> length keys \<le> length channels \<longrightarrow>
             NewJoinCommand args =
               Inr (newCommand (JoinCommand
                      (map_of (rev (zip channels
                         (keys @ replicate (length channels - length keys) []))))
                      False))"
    unfolding Let_def using assms NewJoinCommand_fit [OF assms _ _ refl] by blast
qed

theorem NewJoinCommand_pairing_witness:
  "NewJoinCommand [''#a,#b'', ''key1''] =
     Inr (newCommand (JoinCommand [''#a'' \<mapsto> ''key1'', ''#b'' \<mapsto> ''''] False))
   \<and> NewJoinCommand [''0''] = Inr (newCommand (JoinCommand Map.empty True))
   \<and> ParseCommand example_env ''JOIN #a,#b key1'' =
     Inr \<lparr>code = ''JOIN'',
          body = JoinCommand [''#a'' \<mapsto> ''key1'', ''#b'' \<mapsto> ''''] False\<rparr>
   \<and> ParseCommand example_env ''JOIN 0'' =
     Inr \<lparr>code = ''JOIN'', body = JoinCommand Map.empty True\<rparr>"
proof -
  have m: "map_of (rev (zip [''#a'', ''#b''] [''key1'', '''']))
             = [''#a'' \<mapsto> ''key1'', ''#b'' \<mapsto> '''']"
    by (auto simp: fun_eq_iff)
  have j: "NewJoinCommand [''#a,#b'', ''key1''] =
             Inr (newCommand (JoinCommand [''#a'' \<mapsto> ''key1'', ''#b'' \<mapsto> ''''] False))
           \<and> NewJoinCommand [''0''] = Inr (newCommand (JoinCommand Map.empty True))"
    using NewJoinCommand_pairing [of "[''#a,#b'', ''key1'']"]
          NewJoinCommand_pairing [of "[''0'']"]
    by (simp add: m Let_def)
  have r: "parseCommandFuncs example_env ''JOIN'' = Some NewJoinCommand"
    by (simp add: parseCommandFuncs_def)
  have t: "ParseLine example_env ''JOIN #a,#b key1'' = (''JOIN'', [''#a,#b'', ''key1''])"
    "ParseLine example_env ''JOIN 0'' = (''JOIN'', [''0''])"
    by (simp_all add: tokenizer_defs)
  from j show ?thesis
    by (simp add: t [THEN ParseCommand_registered, OF r] SetCode_def newCommand_def)
qed

text \<open>
  The claim as written takes only the single argument \<open>0\<close> as leave-all and every other
  list as channels and keys; for \<open>JOIN 0 x\<close> the constructor still sets the flag and
  joins no channel named \<open>0\<close>.
\<close>

theorem NewJoinCommand_zero_counterexample:
  "NewJoinCommand [''0'', ''x''] = Inr (newCommand (JoinCommand Map.empty True))
   \<and> NewJoinCommand [''0'', ''x''] \<noteq> Inr (newCommand (JoinCommand [''0'' \<mapsto> ''x''] False))"
  by (simp add: NewJoinCommand_def newCommand_def)

text \<open>
  C9. When the first argument is not \<open>0\<close> and the key list, if present, is no longer than
  the channel list, JOIN construction returns a command or the arity error and never
  indexes out of range; when the key list is longer than the channel list, writing the
  keys indexes past the key slice.
\<close>

theorem NewJoinCommand_panics_iff_keys_overrun:
  "(args ! 0 \<noteq> ''0'' \<and>
      (1 < length args \<longrightarrow>
         length (Split (args ! 1) CHR '','') \<le> length (Split (args ! 0) CHR '','')) \<longrightarrow>
      NewJoinCommand args = Inl NotEnoughArgsError \<or> (\<exists>cmd. NewJoinCommand args = Inr cmd))
   \<and> (1 < length args \<and> args ! 0 \<noteq> ''0'' \<and>
        length (Split (args ! 0) CHR '','') < length (Split (args ! 1) CHR '','') \<longrightarrow>
      NewJoinCommand args = Inl IndexOutOfRange)"
proof (intro conjI impI)
  assume a: "args ! 0 \<noteq> ''0'' \<and>
      (1 < length args \<longrightarrow>
         length (Split (args ! 1) CHR '','') \<le> length (Split (args ! 0) CHR '',''))"
  show "NewJoinCommand args = Inl NotEnoughArgsError \<or> (\<exists>cmd. NewJoinCommand args = Inr cmd)"
  proof (cases "args = []")
    case True
    then show ?thesis by (simp add: NewJoinCommand_def)
  next
    case False
    from a have "length (if length args > 1 then Split (args ! 1) CHR '','' else [])
                   \<le> length (Split (args ! 0) CHR '','')"
      by simp
    from NewJoinCommand_fit [OF False _ this refl] a show ?thesis by blast
  qed
next
  assume b: "1 < length args \<and> args ! 0 \<noteq> ''0'' \<and>
        length (Split (args ! 0) CHR '','') < length (Split (args ! 1) CHR '','')"
  then have "args \<noteq> []" by auto
  with b show "NewJoinCommand args = Inl IndexOutOfRange"
    by (simp add: NewJoinCommand_def Let_def NewJoinCommand_keys_overrun del: One_nat_def)
qed

theorem NewJoinCommand_panics_iff_keys_overrun_witness:
  "NewJoinCommand [''#a,#b'', ''k1,k2''] \<noteq> Inl IndexOutOfRange
   \<and> NewJoinCommand [''#a'', ''k1,k2''] = Inl IndexOutOfRange"
  using NewJoinCommand_panics_iff_keys_overrun [of "[''#a,#b'', ''k1,k2'']"]
        NewJoinCommand_panics_iff_keys_overrun [of "[''#a'', ''k1,k2'']"]
  by auto

subsection \<open>USER\<close>

lemma and_exp_eq_exp_iff_bit:
  assumes "n < 8"
  shows "((m::8 word) AND 2 ^ n = 2 ^ n) \<longleftrightarrow> bit m n"
proof
  assume "m AND 2 ^ n = 2 ^ n"
  then have "bit (m AND 2 ^ n) n = bit (2 ^ n :: 8 word) n"
    by simp
  with assms show "bit m n"
    by (simp add: bit_and_iff bit_exp_iff)
next
  assume "bit m n"
  then show "m AND 2 ^ n = 2 ^ n"
    by (intro bit_word_eqI) (auto simp: bit_and_iff bit_exp_iff)
qed

lemma Flags_WallOps:
  "WallOps \<in> set (Flags (RFC2812UserCommand u r m x)) \<longleftrightarrow> bit m 2"
  using and_exp_eq_exp_iff_bit [of 2 m]
  by (simp add: Let_def WallOps_def Invisible_def byte_def)

lemma Flags_Invisible:
  "Invisible \<in> set (Flags (RFC2812UserCommand u r m x)) \<longleftrightarrow> bit m 3"
  using and_exp_eq_exp_iff_bit [of 3 m]
  by (simp add: Let_def WallOps_def Invisible_def byte_def)

text \<open>
  C3 (amended). USER construction with exactly four arguments parses argument 2 as an
  unsigned 8-bit integer. On success it builds the modern variant, whose flags contain
  wallops exactly when bit 2 of that integer is set and invisible exactly when bit 3 is
  set; on failure it builds the legacy variant (username, hostname, servername,
  realname). For \<open>USER a 12 * realname\<close> both flags are present, since 12 = 8 + 4.
\<close>

theorem NewUserCommand_variants:
  assumes "length args = 4"
  shows "(\<forall>m. ParseUint8 (args ! 1) = Some m \<longrightarrow>
            NewUserCommand args =
              Inr (newCommand (RFC2812UserCommand (args ! 0) (args ! 3) m (args ! 2)))
            \<and> (WallOps \<in> set (Flags (RFC2812UserCommand (args ! 0) (args ! 3) m (args ! 2)))
                 \<longleftrightarrow> bit m 2)
            \<and> (Invisible \<in> set (Flags (RFC2812UserCommand (args ! 0) (args ! 3) m (args ! 2)))
                 \<longleftrightarrow> bit m 3))
       \<and> (ParseUint8 (args ! 1) = None \<longrightarrow>
            NewUserCommand args =
              Inr (newCommand (RFC1459UserCommand (args ! 0) (args ! 3) (args ! 1) (args ! 2))))"
  using assms by (simp add: NewUserCommand_def Flags_WallOps Flags_Invisible del: Flags.simps)

theorem NewUserCommand_variants_witness:
  "NewUserCommand [''a'', ''12'', ''*'', ''realname''] =
     Inr (newCommand (RFC2812UserCommand ''a'' ''realname'' 12 ''*''))
   \<and> WallOps \<in> set (Flags (RFC2812UserCommand ''a'' ''realname'' 12 ''*''))
   \<and> Invisible \<in> set (Flags (RFC2812UserCommand ''a'' ''realname'' 12 ''*''))
   \<and> NewUserCommand [''a'', ''host'', ''serv'', ''realname''] =
     Inr (newCommand (RFC1459UserCommand ''a'' ''realname'' ''host'' ''serv''))
   \<and> ParseCommand example_env ''USER a 12 * realname'' =
     Inr \<lparr>code = ''USER'', body = RFC2812UserCommand ''a'' ''realname'' 12 ''*''\<rparr>
   \<and> ParseCommand example_env ''USER a host serv realname'' =
     Inr \<lparr>code = ''USER'', body = RFC1459UserCommand ''a'' ''realname'' ''host'' ''serv''\<rparr>"
proof -
  have p: "ParseUint8 ''12'' = Some 12" and q: "ParseUint8 ''host'' = None"
    by (simp_all add: ParseUint8_def byte_def)
  have u: "NewUserCommand [''a'', ''12'', ''*'', ''realname''] =
             Inr (newCommand (RFC2812UserCommand ''a'' ''realname'' 12 ''*''))
           \<and> WallOps \<in> set (Flags (RFC2812UserCommand ''a'' ''realname'' 12 ''*''))
           \<and> Invisible \<in> set (Flags (RFC2812UserCommand ''a'' ''realname'' 12 ''*''))
           \<and> NewUserCommand [''a'', ''host'', ''serv'', ''realname''] =
             Inr (newCommand (RFC1459UserCommand ''a'' ''realname'' ''host'' ''serv''))"
    using NewUserCommand_variants [of "[''a'', ''12'', ''*'', ''realname'']"]
          NewUserCommand_variants [of "[''a'', ''host'', ''serv'', ''realname'']"]
    by (simp add: p q del: Flags.simps)
  have r: "parseCommandFuncs example_env ''USER'' = Some NewUserCommand"
    by (simp add: parseCommandFuncs_def)
  have t: "ParseLine example_env ''USER a 12 * realname'' =
             (''USER'', [''a'', ''12'', ''*'', ''realname''])"
    "ParseLine example_env ''USER a host serv realname'' =
             (''USER'', [''a'', ''host'', ''serv'', ''realname''])"
    by (simp_all add: tokenizer_defs)
  from u show ?thesis
    by (simp add: t [THEN ParseCommand_registered, OF r] SetCode_def newCommand_def
        del: Flags.simps)
qed

text \<open>
  The claim as written has \<open>USER a 12 * realname\<close> carry wallops but not invisible;
  bit 3 of 12 is set, and the flags contain invisible.
\<close>

theorem NewUserCommand_flags_counterexample:
  "NewUserCommand [''a'', ''12'', ''*'', ''realname''] =
     Inr (newCommand (RFC2812UserCommand ''a'' ''realname'' 12 ''*''))
   \<and> Invisible \<in> set (Flags (RFC2812UserCommand ''a'' ''realname'' 12 ''*''))"
  by (simp add: NewUserCommand_def ParseUint8_def byte_def)

subsection \<open>MODE\<close>

lemmas mode_consts =
  Add_def Remove_def List_def Invisible_def WallOps_def BanMask_def ChannelCreator_def
  ChannelOperator_def ExceptMask_def InviteMask_def Key_def UserLimit_def Voice_def

lemma EncodeRune_ASCII: "byte c < 128 \<Longrightarrow> EncodeRune (byte c) = [c]"
  by (simp add: EncodeRune_def byte_def)

lemma NewChannelModeCommand_modes_claimed:
  "snd (NewChannelModeCommand_modes ms x args k changes) =
     k + min (length (filter takesArg ms)) (length args - k)"
  by (induction ms arbitrary: k changes) auto

text \<open>
  C1. At the argument list tokenized from \<open>MODE #chan +o-v alice bob\<close> the channel-mode
  parser returns (operator, add, alice), (\<open>-\<close>, add, no argument), (voice, add, bob),
  and not (operator, add, alice), (voice, remove, bob): it reads the operation from the
  first character of the token only, where the grammar that the source quotes for the
  constructor has every sign open a group of modes and lists no sign among the modes.
\<close>

theorem NewChannelModeCommand_sign_inside_token:
  "snd (ParseLine example_env ''MODE #chan +o-v alice bob'') =
     [''#chan'', ''+o-v'', ''alice'', ''bob'']
   \<and> NewChannelModeCommand [''#chan'', ''+o-v'', ''alice'', ''bob''] =
     Inr (newCommand (ChannelModeCommand ''#chan''
            [ChannelModeChange ChannelOperator Add ''alice'',
             ChannelModeChange (byte CHR ''-'') Add [],
             ChannelModeChange Voice Add ''bob'']))
   \<and> NewChannelModeCommand [''#chan'', ''+o-v'', ''alice'', ''bob''] \<noteq>
     Inr (newCommand (ChannelModeCommand ''#chan''
            [ChannelModeChange ChannelOperator Add ''alice'',
             ChannelModeChange Voice Remove ''bob'']))"
proof (intro conjI)
  show "snd (ParseLine example_env ''MODE #chan +o-v alice bob'') =
          [''#chan'', ''+o-v'', ''alice'', ''bob'']"
    by (simp add: tokenizer_defs)
  show "NewChannelModeCommand [''#chan'', ''+o-v'', ''alice'', ''bob''] =
     Inr (newCommand (ChannelModeCommand ''#chan''
            [ChannelModeChange ChannelOperator Add ''alice'',
             ChannelModeChange (byte CHR ''-'') Add [],
             ChannelModeChange Voice Add ''bob'']))"
    by (simp add: NewChannelModeCommand_def NewChannelModeCommand_loop.simps
        DecodeRuneInString_def takesArg_def mode_consts byte_def)
  show "NewChannelModeCommand [''#chan'', ''+o-v'', ''alice'', ''bob''] \<noteq>
     Inr (newCommand (ChannelModeCommand ''#chan''
            [ChannelModeChange ChannelOperator Add ''alice'',
             ChannelModeChange Voice Remove ''bob'']))"
    by (simp add: NewChannelModeCommand_def NewChannelModeCommand_loop.simps
        DecodeRuneInString_def takesArg_def mode_consts byte_def newCommand_def)
qed

lemma EncodeRune_letters:
  "EncodeRune (byte CHR ''+'') = ''+''" "EncodeRune (byte CHR ''-'') = ''-''"
  "EncodeRune (byte CHR ''i'') = ''i''" "EncodeRune (byte CHR ''w'') = ''w''"
  "EncodeRune (byte CHR ''o'') = ''o''"
  by (rule EncodeRune_ASCII, simp add: byte_def)+

lemma byte_minus_neq_plus: "byte CHR ''-'' \<noteq> byte CHR ''+''"
  by (simp add: byte_def)

text \<open>
  C2. For \<open>MODE nick +iw-o\<close>, nick not being a channel name, the parser returns
  (i, add), (w, add), (\<open>-\<close>, add), (o, add), and not (i, add), (w, add), (o, remove):
  it reads the operation from the first character of the argument only, where the
  grammar that the source quotes for the constructor has every sign open a group and
  lists the letters i, w, o, O and r as the modes. The sequence (i, add), (w, add),
  (o, remove) itself renders as \<open>+iw -\<close>, and not as \<open>+iw-o\<close>: where the operation
  changes, the renderer appends a space and the new sign but not the mode letter.
\<close>

theorem NewUserModeCommand_sign_inside_argument:
  "\<not> IsChannel example_env ''nick''
   \<and> ParseCommand example_env ''MODE nick +iw-o'' =
     Inr \<lparr>code = ''MODE'', body = ModeCommand ''nick''
            [ModeChange (byte CHR ''i'') Add, ModeChange (byte CHR ''w'') Add,
             ModeChange (byte CHR ''-'') Add, ModeChange (byte CHR ''o'') Add]\<rparr>
   \<and> ParseCommand example_env ''MODE nick +iw-o'' \<noteq>
     Inr \<lparr>code = ''MODE'', body = ModeCommand ''nick''
            [ModeChange (byte CHR ''i'') Add, ModeChange (byte CHR ''w'') Add,
             ModeChange (byte CHR ''o'') Remove]\<rparr>
   \<and> ModeChanges_String
         [ModeChange (byte CHR ''i'') Add, ModeChange (byte CHR ''w'') Add,
          ModeChange (byte CHR ''o'') Remove] = ''+iw -''"
proof (intro conjI)
  have t: "ParseLine example_env ''MODE nick +iw-o'' = (''MODE'', [''nick'', ''+iw-o''])"
    by (simp add: tokenizer_defs)
  have r: "parseCommandFuncs example_env ''MODE'' = Some (NewModeCommand example_env)"
    by (simp add: parseCommandFuncs_def)
  have n: "NewModeCommand example_env [''nick'', ''+iw-o''] =
             Inr (newCommand (ModeCommand ''nick''
                    [ModeChange (byte CHR ''i'') Add, ModeChange (byte CHR ''w'') Add,
                     ModeChange (byte CHR ''-'') Add, ModeChange (byte CHR ''o'') Add]))"
    by (simp add: NewModeCommand_def NewUserModeCommand_def DecodeRuneInString_def mode_consts
        byte_def example_env_def HasPrefix_def)
  show "\<not> IsChannel example_env ''nick''"
    by (simp add: example_env_def HasPrefix_def)
  show "ParseCommand example_env ''MODE nick +iw-o'' =
     Inr \<lparr>code = ''MODE'', body = ModeCommand ''nick''
            [ModeChange (byte CHR ''i'') Add, ModeChange (byte CHR ''w'') Add,
             ModeChange (byte CHR ''-'') Add, ModeChange (byte CHR ''o'') Add]\<rparr>"
    by (simp add: ParseCommand_registered [OF t r] n SetCode_def newCommand_def)
  show "ParseCommand example_env ''MODE nick +iw-o'' \<noteq>
     Inr \<lparr>code = ''MODE'', body = ModeCommand ''nick''
            [ModeChange (byte CHR ''i'') Add, ModeChange (byte CHR ''w'') Add,
             ModeChange (byte CHR ''o'') Remove]\<rparr>"
    by (simp add: ParseCommand_registered [OF t r] n SetCode_def newCommand_def mode_consts
        byte_def)
  show "ModeChanges_String
         [ModeChange (byte CHR ''i'') Add, ModeChange (byte CHR ''w'') Add,
          ModeChange (byte CHR ''o'') Remove] = ''+iw -''"
    by (simp add: UserMode_String_def ModeOp_String_def Add_def Remove_def EncodeRune_letters
        byte_minus_neq_plus)
qed

lemma NewChannelModeCommand_loop_Nil [simp]:
  "NewChannelModeCommand_loop [] changes = Inr changes"
  by (subst NewChannelModeCommand_loop.simps) simp

lemma NewChannelModeCommand_loop_total:
  "\<exists>changes'. NewChannelModeCommand_loop args changes = Inr changes'"
proof (induction "length args" arbitrary: args changes rule: less_induct)
  case less
  show ?case
  proof (cases "length args > 0")
    case False
    then show ?thesis by simp
  next
    case nonempty: True
    show ?thesis
    proof (cases "length (args ! 0) = 0")
      case True
      from nonempty have "length (drop 1 args) < length args" by simp
      from less [OF this, of changes] nonempty True show ?thesis
        by (subst NewChannelModeCommand_loop.simps) simp
    next
      case False
      define x where "x = byte (args ! 0 ! 0)"
      define modeArg where
        "modeArg = (if x = Add \<or> x = Remove then drop 1 (args ! 0) else args ! 0)"
      define x' where "x' = (if x = Add \<or> x = Remove then x else List)"
      obtain changes1 skipArgs where
        m: "NewChannelModeCommand_modes (runes modeArg) x' args 1 changes = (changes1, skipArgs)"
        by (cases "NewChannelModeCommand_modes (runes modeArg) x' args 1 changes")
      from NewChannelModeCommand_modes_skipArgs [OF m] nonempty
      have k: "1 \<le> skipArgs" "skipArgs \<le> length args"
        by simp_all
      then have "length (drop skipArgs args) < length args"
        using nonempty by simp
      from less [OF this, of changes1] obtain changes' where
        r: "NewChannelModeCommand_loop (drop skipArgs args) changes1 = Inr changes'"
        by blast
      have "NewChannelModeCommand_loop args changes = Inr changes'"
        using nonempty False m k r
        by (subst NewChannelModeCommand_loop.simps)
           (auto simp: Let_def x_def modeArg_def x'_def split: if_splits)
      then show ?thesis by blast
    qed
  qed
qed

lemma NewUserModeCommand_loop_ok:
  "\<forall>a \<in> set args. a \<noteq> [] \<longrightarrow> byte (a ! 0) = Add \<or> byte (a ! 0) = Remove \<Longrightarrow>
     \<exists>changes'. NewUserModeCommand_loop args changes = Inr changes'"
  by (induction args arbitrary: changes) (auto simp: Let_def)

lemma NewUserModeCommand_loop_grammar:
  "\<exists>a \<in> set args. a \<noteq> [] \<and> byte (a ! 0) \<noteq> Add \<and> byte (a ! 0) \<noteq> Remove \<Longrightarrow>
     NewUserModeCommand_loop args changes = Inl ErrParseCommand"
  by (induction args arbitrary: changes) (auto simp: Let_def)

lemma NewChannelModeCommand_modes_no_args:
  "length args \<le> k \<Longrightarrow>
     NewChannelModeCommand_modes ms x args k changes =
       (changes @ map (\<lambda>m. ChannelModeChange m x []) ms, k)"
  by (induction ms arbitrary: changes) simp_all

text \<open>
  C10. When the first argument is recognised as a channel name, MODE construction
  returns a channel-mode command and no error, whatever the remaining arguments are. An
  argument whose first character is neither \<open>+\<close> nor \<open>-\<close> is read as mode letters with
  the list operation. The grammar error is returned exactly when the subject is not a
  channel name and some non-empty mode argument starts with neither \<open>+\<close> nor \<open>-\<close>.
\<close>

theorem NewModeCommand_grammar_error_only_user:
  "(args \<noteq> [] \<and> IsChannel E (args ! 0) \<longrightarrow>
      (\<exists>changes. NewModeCommand E args =
                    Inr (newCommand (ChannelModeCommand (args ! 0) changes))))
   \<and> (NewModeCommand E args = Inl ErrParseCommand \<longleftrightarrow>
        args \<noteq> [] \<and> \<not> IsChannel E (args ! 0) \<and>
        (\<exists>a \<in> set (drop 1 args). a \<noteq> [] \<and> byte (a ! 0) \<noteq> Add \<and> byte (a ! 0) \<noteq> Remove))
   \<and> (a \<noteq> [] \<and> byte (a ! 0) \<noteq> Add \<and> byte (a ! 0) \<noteq> Remove \<longrightarrow>
        NewChannelModeCommand [c, a] =
          Inr (newCommand (ChannelModeCommand c
                 (map (\<lambda>m. ChannelModeChange m List []) (runes a)))))"
proof (intro conjI impI)
  assume "args \<noteq> [] \<and> IsChannel E (args ! 0)"
  moreover obtain changes where "NewChannelModeCommand_loop (drop 1 args) [] = Inr changes"
    using NewChannelModeCommand_loop_total by blast
  ultimately show "\<exists>changes. NewModeCommand E args =
                    Inr (newCommand (ChannelModeCommand (args ! 0) changes))"
    by (auto simp: NewModeCommand_def NewChannelModeCommand_def)
next
  show "NewModeCommand E args = Inl ErrParseCommand \<longleftrightarrow>
        args \<noteq> [] \<and> \<not> IsChannel E (args ! 0) \<and>
        (\<exists>a \<in> set (drop 1 args). a \<noteq> [] \<and> byte (a ! 0) \<noteq> Add \<and> byte (a ! 0) \<noteq> Remove)"
  proof (cases "args = []")
    case True
    then show ?thesis by (simp add: NewModeCommand_def)
  next
    case nonempty: False
    show ?thesis
    proof (cases "IsChannel E (args ! 0)")
      case True
      obtain changes where "NewChannelModeCommand_loop (drop 1 args) [] = Inr changes"
        using NewChannelModeCommand_loop_total by blast
      with nonempty True show ?thesis
        by (simp add: NewModeCommand_def NewChannelModeCommand_def)
    next
      case False
      show ?thesis
      proof (cases "\<exists>a \<in> set (drop 1 args). a \<noteq> [] \<and> byte (a ! 0) \<noteq> Add \<and> byte (a ! 0) \<noteq> Remove")
        case True
        from NewUserModeCommand_loop_grammar [OF True, of "[]"] nonempty False True
        show ?thesis
          by (simp add: NewModeCommand_def NewUserModeCommand_def)
      next
        case no_bad: False
        then have "\<forall>a \<in> set (drop 1 args). a \<noteq> [] \<longrightarrow> byte (a ! 0) = Add \<or> byte (a ! 0) = Remove"
          by blast
        from NewUserModeCommand_loop_ok [OF this, of "[]"] obtain changes where
          "NewUserModeCommand_loop (drop 1 args) [] = Inr changes" by blast
        with nonempty False no_bad show ?thesis
          by (simp add: NewModeCommand_def NewUserModeCommand_def)
      qed
    qed
  qed
next
  assume a: "a \<noteq> [] \<and> byte (a ! 0) \<noteq> Add \<and> byte (a ! 0) \<noteq> Remove"
  have "NewChannelModeCommand_loop [a] [] =
          Inr (map (\<lambda>m. ChannelModeChange m List []) (runes a))"
    using a
    by (subst NewChannelModeCommand_loop.simps)
       (simp add: Let_def NewChannelModeCommand_modes_no_args)
  then show "NewChannelModeCommand [c, a] =
          Inr (newCommand (ChannelModeCommand c
                 (map (\<lambda>m. ChannelModeChange m List []) (runes a))))"
    by (simp add: NewChannelModeCommand_def)
qed

theorem NewModeCommand_grammar_error_only_user_witness:
  "(\<exists>changes. NewModeCommand example_env [''#chan'', ''b'', ''+x''] =
                 Inr (newCommand (ChannelModeCommand ''#chan'' changes)))
   \<and> NewModeCommand example_env [''nick'', ''b''] = Inl ErrParseCommand
   \<and> NewChannelModeCommand [''#chan'', ''b''] =
       Inr (newCommand (ChannelModeCommand ''#chan'' [ChannelModeChange BanMask List []]))"
proof -
  have r: "runes ''b'' = [BanMask]"
    by (simp add: DecodeRuneInString_def BanMask_def byte_def)
  have b: "byte (''b'' ! 0) \<noteq> Add \<and> byte (''b'' ! 0) \<noteq> Remove"
    by (simp add: byte_def Add_def Remove_def)
  have c: "IsChannel example_env ''#chan''" "\<not> IsChannel example_env ''nick''"
    by (simp_all add: example_env_def HasPrefix_def)
  show ?thesis
    using NewModeCommand_grammar_error_only_user
            [of "[''#chan'', ''b'', ''+x'']" example_env "''b''" "''#chan''"]
          NewModeCommand_grammar_error_only_user
            [of "[''nick'', ''b'']" example_env "''b''" "''#chan''"]
          b c
    by (simp add: r del: runes.simps)
qed

subsection \<open>Tokenizer\<close>

lemma splitArg_fst:
  "\<not> list_ex isSpace (fst (splitArg line)) \<and> set (fst (splitArg line)) \<subseteq> set line"
proof -
  have "\<not> list_ex isSpace (takeWhile (\<lambda>c. \<not> isSpace c) line)"
    by (auto simp: list_ex_iff dest: set_takeWhileD)
  moreover have "set (takeWhile (\<lambda>c. \<not> isSpace c) line) \<subseteq> set line"
    by (auto dest: set_takeWhileD)
  ultimately show ?thesis
    by (simp add: splitArg_def spacesExpr_Split2_def)
qed

lemma splitArg_fst_head:
  assumes "line \<noteq> []" and "\<not> isSpace (hd line)"
  shows "fst (splitArg line) \<noteq> [] \<and> hd (fst (splitArg line)) = hd line"
  using assms by (cases line) (auto simp: splitArg_def spacesExpr_Split2_def)

lemma dropWhile_spaces_after_space:
  assumes "d \<noteq> []" and "isSpace (hd d)"
  shows "\<exists>pre. d = pre @ CHR '' '' # dropWhile isSpace d"
proof -
  let ?sp = "takeWhile isSpace d"
  from assms have ne: "?sp \<noteq> []"
    by (cases d) auto
  then have "last ?sp \<in> set ?sp"
    by simp
  then have "isSpace (last ?sp)"
    by (auto dest: set_takeWhileD)
  then have l: "last ?sp = CHR '' ''"
    by (simp add: isSpace_def)
  have "d = ?sp @ dropWhile isSpace d"
    by simp
  also have "?sp = butlast ?sp @ [last ?sp]"
    using ne by simp
  finally have "d = butlast ?sp @ CHR '' '' # dropWhile isSpace d"
    using l by simp
  then show ?thesis ..
qed

lemma splitArg_snd:
  "(snd (splitArg line) \<noteq> [] \<longrightarrow> (\<exists>pre. line = pre @ CHR '' '' # snd (splitArg line)))
   \<and> (snd (splitArg line) = [] \<or> \<not> isSpace (hd (snd (splitArg line))))
   \<and> set (snd (splitArg line)) \<subseteq> set line"
proof (cases "list_ex isSpace line")
  case False
  then show ?thesis
    by (simp add: splitArg_def spacesExpr_Split2_def)
next
  case True
  let ?d = "dropWhile (\<lambda>c. \<not> isSpace c) line"
  from True have ne: "line \<noteq> []"
    by auto
  from True have d: "?d \<noteq> []"
    by (auto simp: list_ex_iff)
  then have h: "isSpace (hd ?d)"
    using hd_dropWhile [of "\<lambda>c. \<not> isSpace c" line] by simp
  have s: "snd (splitArg line) = dropWhile isSpace ?d"
    using True ne by (simp add: splitArg_def spacesExpr_Split2_def)
  from dropWhile_spaces_after_space [OF d h] obtain pre where
    "?d = pre @ CHR '' '' # dropWhile isSpace ?d" ..
  then have "line = (takeWhile (\<lambda>c. \<not> isSpace c) line @ pre) @ CHR '' '' # dropWhile isSpace ?d"
    by (metis append.assoc takeWhile_dropWhile_id)
  then have a: "\<exists>pre. line = pre @ CHR '' '' # snd (splitArg line)"
    unfolding s ..
  have b: "snd (splitArg line) = [] \<or> \<not> isSpace (hd (snd (splitArg line)))"
    unfolding s using hd_dropWhile [of isSpace ?d] by blast
  have c: "set (snd (splitArg line)) \<subseteq> set line"
    unfolding s by (meson set_dropWhileD subsetI)
  from a b c show ?thesis by blast
qed

lemma ParseLine_loop_shape:
  assumes "line = [] \<or> \<not> isSpace (hd line)"
  shows "\<exists>toks tr. ParseLine_loop E line args = args @ map (NFKC_String E) toks @ tr
     \<and> (\<forall>t \<in> set toks. t \<noteq> [] \<and> hd t \<noteq> CHR '':'' \<and> \<not> list_ex isSpace t
                           \<and> set t \<subseteq> set line)
     \<and> (tr = [] \<or> (\<exists>t. tr = [NFC_String E t] \<and>
                       (line = CHR '':'' # t \<or> (\<exists>pre. line = pre @ CHR '' '' # CHR '':'' # t))))"
  using assms
proof (induction E line args rule: ParseLine_loop.induct)
  case (1 E line args)
  show ?case
  proof (cases "length line > 0")
    case False
    then have "ParseLine_loop E line args = args @ map (NFKC_String E) [] @ []"
      by (subst ParseLine_loop.simps) simp
    then show ?thesis
      by (intro exI [where x = "[]"]) simp
  next
    case nonempty: True
    show ?thesis
    proof (cases "HasPrefix line CHR '':''")
      case True
      then have "line = CHR '':'' # drop 1 line"
        by (cases line) (simp_all add: HasPrefix_def)
      moreover have "ParseLine_loop E line args =
                       args @ map (NFKC_String E) [] @ [NFC_String E (drop 1 line)]"
        using nonempty True by (subst ParseLine_loop.simps) simp
      ultimately show ?thesis
        by (intro exI [where x = "[]"] exI [where x = "[NFC_String E (drop 1 line)]"]) auto
    next
      case False
      obtain arg rest where s: "splitArg line = (arg, rest)"
        by (cases "splitArg line")
      from splitArg_snd [of line] s
      have p: "rest \<noteq> [] \<longrightarrow> (\<exists>pre. line = pre @ CHR '' '' # rest)"
        and q: "rest = [] \<or> \<not> isSpace (hd rest)"
        and u: "set rest \<subseteq> set line"
        by simp_all
      from "1.IH" [OF nonempty False s [symmetric] q]
      obtain toks tr where
        r: "ParseLine_loop E rest (args @ [NFKC_String E arg]) =
              (args @ [NFKC_String E arg]) @ map (NFKC_String E) toks @ tr"
        and t: "\<forall>t \<in> set toks. t \<noteq> [] \<and> hd t \<noteq> CHR '':'' \<and> \<not> list_ex isSpace t
                                  \<and> set t \<subseteq> set rest"
        and e: "tr = [] \<or> (\<exists>t. tr = [NFC_String E t] \<and>
                  (rest = CHR '':'' # t \<or> (\<exists>pre. rest = pre @ CHR '' '' # CHR '':'' # t)))"
        by blast
      have l: "ParseLine_loop E line args = args @ map (NFKC_String E) (arg # toks) @ tr"
        using nonempty False s r by (subst ParseLine_loop.simps) simp
      from nonempty "1.prems" have h: "line \<noteq> []" "\<not> isSpace (hd line)"
        by auto
      have a: "arg \<noteq> [] \<and> hd arg \<noteq> CHR '':'' \<and> \<not> list_ex isSpace arg \<and> set arg \<subseteq> set line"
        using splitArg_fst [of line] splitArg_fst_head [OF h] s False h(1)
        by (cases line) (auto simp: HasPrefix_def)
      have t': "\<forall>t \<in> set (arg # toks). t \<noteq> [] \<and> hd t \<noteq> CHR '':'' \<and> \<not> list_ex isSpace t
                                  \<and> set t \<subseteq> set line"
        using a t u by auto
      have e': "tr = [] \<or> (\<exists>t. tr = [NFC_String E t] \<and>
                  (line = CHR '':'' # t \<or> (\<exists>pre. line = pre @ CHR '' '' # CHR '':'' # t)))"
      proof (cases "tr = []")
        case True
        then show ?thesis by simp
      next
        case False
        with e obtain t where tr: "tr = [NFC_String E t]"
          and c: "rest = CHR '':'' # t \<or> (\<exists>pre. rest = pre @ CHR '' '' # CHR '':'' # t)"
          by blast
        from c have "rest \<noteq> []" by auto
        with p obtain pre0 where l0: "line = pre0 @ CHR '' '' # rest" by blast
        from c have "\<exists>pre. line = pre @ CHR '' '' # CHR '':'' # t"
        proof
          assume "rest = CHR '':'' # t"
          with l0 show ?thesis by blast
        next
          assume "\<exists>pre. rest = pre @ CHR '' '' # CHR '':'' # t"
          then obtain pre where "rest = pre @ CHR '' '' # CHR '':'' # t" ..
          with l0 have "line = (pre0 @ CHR '' '' # pre) @ CHR '' '' # CHR '':'' # t"
            by simp
          then show ?thesis ..
        qed
        with tr show ?thesis by blast
      qed
      from l t' e' show ?thesis by blast
    qed
  qed
qed

lemma NFKC_String_ASCII: "isASCII t \<Longrightarrow> NFKC_String E t = t"
  by (simp add: NFKC_String_def)

lemma isASCII_subset: "isASCII line \<Longrightarrow> set t \<subseteq> set line \<Longrightarrow> isASCII t"
  by (auto simp: isASCII_def list_all_iff)

text \<open>
  C6 (amended). For every input line, the parameters are the NFKC normalizations of
  tokens, each non-empty, not starting with \<open>:\<close> and containing no space character
  (U+0020), followed by at most one trailing parameter. The trailing parameter is
  introduced by a \<open>:\<close> that leads a segment, that is, stands right after a space of the
  line, and is the NFC normalization of everything after that colon. Only runs of U+0020
  delimit; normalization is applied after splitting. For a line of ASCII bytes, no
  parameter before the last contains a space.
\<close>

theorem ParseLine_parameters:
  "\<exists>toks tr. snd (ParseLine E line) = map (NFKC_String E) toks @ tr
     \<and> (\<forall>t \<in> set toks. t \<noteq> [] \<and> hd t \<noteq> CHR '':'' \<and> CHR '' '' \<notin> set t)
     \<and> (tr = [] \<or> (\<exists>t pre. tr = [NFC_String E t] \<and> line = pre @ CHR '' '' # CHR '':'' # t))
     \<and> (isASCII line \<longrightarrow>
          (\<forall>i. Suc i < length (snd (ParseLine E line)) \<longrightarrow>
                 CHR '' '' \<notin> set (snd (ParseLine E line) ! i)))"
proof -
  define line1 where
    "line1 = (if HasPrefix line CHR '':'' then snd (splitArg line) else line)"
  define line2 where "line2 = snd (splitArg line1)"
  have p: "snd (ParseLine E line) = ParseLine_loop E line2 []"
    by (simp add: ParseLine_def line1_def line2_def Let_def split: prod.splits)
  have "\<exists>pre1. line = pre1 @ line1"
  proof (cases "HasPrefix line CHR '':'' \<and> snd (splitArg line) \<noteq> []")
    case True
    with splitArg_snd [of line] obtain pre where "line = pre @ CHR '' '' # snd (splitArg line)"
      by blast
    then have "\<exists>pre1. line = pre1 @ snd (splitArg line)"
      by (intro exI [where x = "pre @ [CHR '' '']"]) simp
    with True show ?thesis by (simp add: line1_def)
  next
    case False
    then show ?thesis by (auto simp: line1_def)
  qed
  then obtain pre1 where p1: "line = pre1 @ line1" ..
  have s1: "set line1 \<subseteq> set line"
    using p1 by auto
  have p2: "line2 \<noteq> [] \<longrightarrow> (\<exists>pre. line1 = pre @ CHR '' '' # line2)"
    and q2: "line2 = [] \<or> \<not> isSpace (hd line2)"
    and s2: "set line2 \<subseteq> set line1"
    using splitArg_snd [of line1] by (simp_all add: line2_def)
  from ParseLine_loop_shape [OF q2, of E "[]"] obtain toks tr where
    r: "ParseLine_loop E line2 [] = map (NFKC_String E) toks @ tr"
    and t: "\<forall>t \<in> set toks. t \<noteq> [] \<and> hd t \<noteq> CHR '':'' \<and> \<not> list_ex isSpace t
                              \<and> set t \<subseteq> set line2"
    and e: "tr = [] \<or> (\<exists>t. tr = [NFC_String E t] \<and>
              (line2 = CHR '':'' # t \<or> (\<exists>pre. line2 = pre @ CHR '' '' # CHR '':'' # t)))"
    by auto
  have t1: "\<forall>t \<in> set toks. t \<noteq> [] \<and> hd t \<noteq> CHR '':'' \<and> CHR '' '' \<notin> set t"
    using t by (auto simp: list_ex_iff isSpace_def)
  have e1: "tr = [] \<or> (\<exists>t pre. tr = [NFC_String E t] \<and> line = pre @ CHR '' '' # CHR '':'' # t)"
  proof (cases "tr = []")
    case True
    then show ?thesis by simp
  next
    case False
    with e obtain t where tr: "tr = [NFC_String E t]"
      and c: "line2 = CHR '':'' # t \<or> (\<exists>pre. line2 = pre @ CHR '' '' # CHR '':'' # t)"
      by blast
    from c have "line2 \<noteq> []" by auto
    with p2 obtain pre0 where l0: "line1 = pre0 @ CHR '' '' # line2" by blast
    from c have "\<exists>pre. line = pre @ CHR '' '' # CHR '':'' # t"
    proof
      assume "line2 = CHR '':'' # t"
      with l0 p1 have "line = (pre1 @ pre0) @ CHR '' '' # CHR '':'' # t" by simp
      then show ?thesis ..
    next
      assume "\<exists>pre. line2 = pre @ CHR '' '' # CHR '':'' # t"
      then obtain pre where "line2 = pre @ CHR '' '' # CHR '':'' # t" ..
      with l0 p1 have "line = (pre1 @ pre0 @ CHR '' '' # pre) @ CHR '' '' # CHR '':'' # t"
        by simp
      then show ?thesis ..
    qed
    with tr show ?thesis by blast
  qed
  have a: "isASCII line \<longrightarrow>
             (\<forall>i. Suc i < length (snd (ParseLine E line)) \<longrightarrow>
                    CHR '' '' \<notin> set (snd (ParseLine E line) ! i))"
  proof (intro allI impI)
    fix i
    assume that: "isASCII line"
    assume i: "Suc i < length (snd (ParseLine E line))"
    have "length tr \<le> 1" using e by auto
    with i have lt: "i < length toks"
      by (simp add: p r)
    then have m: "toks ! i \<in> set toks" by simp
    with t s1 s2 have "set (toks ! i) \<subseteq> set line" by blast
    with that have "isASCII (toks ! i)" by (rule isASCII_subset)
    then have "snd (ParseLine E line) ! i = toks ! i"
      using lt by (simp add: p r nth_append NFKC_String_ASCII)
    with t1 m show "CHR '' '' \<notin> set (snd (ParseLine E line) ! i)" by simp
  qed
  from p r have q: "snd (ParseLine E line) = map (NFKC_String E) toks @ tr"
    by simp
  from q t1 e1 a show ?thesis by blast
qed

theorem ParseLine_parameters_witness:
  "snd (ParseLine example_env '':nick PRIVMSG  #chan :hello  world'') =
     [''#chan'', ''hello  world'']
   \<and> (\<exists>toks tr. snd (ParseLine example_env '':nick PRIVMSG  #chan :hello  world'') =
                   map (NFKC_String example_env) toks @ tr
        \<and> list_all (\<lambda>t. t \<noteq> [] \<and> hd t \<noteq> CHR '':'' \<and> CHR '' '' \<notin> set t) toks
        \<and> (tr = [] \<or> (\<exists>t pre. tr = [NFC_String example_env t] \<and>
              '':nick PRIVMSG  #chan :hello  world'' = pre @ CHR '' '' # CHR '':'' # t)))
   \<and> isASCII '':nick PRIVMSG  #chan :hello  world''
   \<and> CHR '' '' \<notin> set (snd (ParseLine example_env '':nick PRIVMSG  #chan :hello  world'') ! 0)
   \<and> snd (ParseLine example_env ''PRIVMSG a:b c d'') = [''a:b'', ''c'', ''d'']"
proof -
  have v: "snd (ParseLine example_env '':nick PRIVMSG  #chan :hello  world'') =
             [''#chan'', ''hello  world'']"
    "snd (ParseLine example_env ''PRIVMSG a:b c d'') = [''a:b'', ''c'', ''d'']"
    by (simp_all add: tokenizer_defs)
  have a: "isASCII '':nick PRIVMSG  #chan :hello  world''"
    by (simp add: isASCII_def byte_def)
  from ParseLine_parameters [of example_env "'':nick PRIVMSG  #chan :hello  world''"] a
  obtain toks tr where
    "snd (ParseLine example_env '':nick PRIVMSG  #chan :hello  world'') =
       map (NFKC_String example_env) toks @ tr"
    "\<forall>t \<in> set toks. t \<noteq> [] \<and> hd t \<noteq> CHR '':'' \<and> CHR '' '' \<notin> set t"
    "tr = [] \<or> (\<exists>t pre. tr = [NFC_String example_env t] \<and>
              '':nick PRIVMSG  #chan :hello  world'' = pre @ CHR '' '' # CHR '':'' # t)"
    "\<forall>i. Suc i < length (snd (ParseLine example_env '':nick PRIVMSG  #chan :hello  world''))
        \<longrightarrow> CHR '' '' \<notin> set (snd (ParseLine example_env
                                  '':nick PRIVMSG  #chan :hello  world'') ! i)"
    by blast
  then have
    "\<exists>toks tr. snd (ParseLine example_env '':nick PRIVMSG  #chan :hello  world'') =
                   map (NFKC_String example_env) toks @ tr
        \<and> list_all (\<lambda>t. t \<noteq> [] \<and> hd t \<noteq> CHR '':'' \<and> CHR '' '' \<notin> set t) toks
        \<and> (tr = [] \<or> (\<exists>t pre. tr = [NFC_String example_env t] \<and>
              '':nick PRIVMSG  #chan :hello  world'' = pre @ CHR '' '' # CHR '':'' # t))"
    and "CHR '' '' \<notin> set (snd (ParseLine example_env
                                  '':nick PRIVMSG  #chan :hello  world'') ! 0)"
    using v(1) by (auto simp: list_all_iff)
  with v a show ?thesis by blast
qed

text \<open>
  The claim as written lets only the last parameter contain whitespace. A TAB is
  whitespace but not a delimiter: in \<open>PRIVMSG a<TAB>b :hi\<close> the first of the two
  parameters contains it.
\<close>

theorem ParseLine_tab_counterexample:
  "snd (ParseLine example_env (''PRIVMSG a'' @ [CHR 0x09] @ ''b :hi'')) =
     [''a'' @ [CHR 0x09] @ ''b'', ''hi'']
   \<and> CHR 0x09 \<in> set (snd (ParseLine example_env (''PRIVMSG a'' @ [CHR 0x09] @ ''b :hi'')) ! 0)"
  by (simp add: tokenizer_defs)

subsection \<open>Dispatcher\<close>

text \<open>
  C7. For every line whose tokenized, upper-cased command code is absent from the
  registry, \<open>ParseCommand\<close> returns no error but the unknown-command variant, carrying
  the tokenized parameters and stamped with that code.
\<close>

theorem ParseCommand_unknown:
  assumes "parseCommandFuncs E (fst (ParseLine E line)) = None"
  shows "ParseCommand E line =
           Inr \<lparr>code = fst (ParseLine E line),
                body = UnknownCommand (snd (ParseLine E line))\<rparr>"
proof -
  obtain c args where p: "ParseLine E line = (c, args)"
    by (cases "ParseLine E line")
  with assms have "parseCommandFuncs E c = None"
    by simp
  with p show ?thesis
    by (simp add: ParseCommand_def NewUnknownCommand_def newCommand_def SetCode_def)
qed

theorem ParseCommand_unknown_witness:
  "parseCommandFuncs example_env (fst (ParseLine example_env ''ZORP arg1 arg2'')) = None
   \<and> ParseCommand example_env ''ZORP arg1 arg2'' =
       Inr \<lparr>code = ''ZORP'', body = UnknownCommand [''arg1'', ''arg2'']\<rparr>"
proof -
  have v: "ParseLine example_env ''ZORP arg1 arg2'' = (''ZORP'', [''arg1'', ''arg2''])"
    by (simp add: tokenizer_defs)
  have n: "parseCommandFuncs example_env ''ZORP'' = None"
    by (simp add: parseCommandFuncs_def)
  from ParseCommand_unknown [of example_env "''ZORP arg1 arg2''"] v n show ?thesis
    by simp
qed

end
